theory Spec2Isabelle
  imports Complex_Main "HOL-Library.AList"
begin

section \<open>JavaScript values used by the places API\<close>

text \<open>
  The API is written in JavaScript. A string is modelled as a list of characters, each
  character a code unit below 256 (\<open>CHR 0xA0\<close> is the no-break space U+00A0), an
  absent query parameter (\<^verbatim>\<open>undefined\<close>) as \<open>None\<close>. A JavaScript number is either
  \<^verbatim>\<open>NaN\<close>, one of the two infinities, or a finite value; finite values are kept exact
  (a rational), so the rounding and the overflow of binary64 are not part of the model.
  Negative zero is not told apart from zero: both are falsy, and no function below looks
  at the sign of a zero.
\<close>

datatype number = NaN | PosInfinity | NegInfinity | Num rat

text \<open>Truthiness of a number (\<^verbatim>\<open>ToBoolean\<close>): \<^verbatim>\<open>NaN\<close> and zero are falsy.\<close>

fun truthy_number :: "number \<Rightarrow> bool" where
  "truthy_number NaN = False"
| "truthy_number (Num r) = (r \<noteq> 0)"
| "truthy_number PosInfinity = True"
| "truthy_number NegInfinity = True"

text \<open>The operator \<^verbatim>\<open>a || b\<close> on numbers.\<close>

definition or_else :: "number \<Rightarrow> number \<Rightarrow> number" where
  "or_else a b = (if truthy_number a then a else b)"

text \<open>\<^verbatim>\<open>Math.max\<close> and \<^verbatim>\<open>Math.min\<close> on two arguments: \<^verbatim>\<open>NaN\<close> is contagious.\<close>

fun Math_max :: "number \<Rightarrow> number \<Rightarrow> number" where
  "Math_max NaN _ = NaN"
| "Math_max _ NaN = NaN"
| "Math_max PosInfinity _ = PosInfinity"
| "Math_max _ PosInfinity = PosInfinity"
| "Math_max NegInfinity b = b"
| "Math_max a NegInfinity = a"
| "Math_max (Num a) (Num b) = Num (max a b)"

fun Math_min :: "number \<Rightarrow> number \<Rightarrow> number" where
  "Math_min NaN _ = NaN"
| "Math_min _ NaN = NaN"
| "Math_min NegInfinity _ = NegInfinity"
| "Math_min _ NegInfinity = NegInfinity"
| "Math_min PosInfinity b = b"
| "Math_min a PosInfinity = a"
| "Math_min (Num a) (Num b) = Num (min a b)"

text \<open>\<^verbatim>\<open>ToString\<close> of a query value: \<^verbatim>\<open>undefined\<close> becomes the text "undefined".\<close>

fun ToString :: "string option \<Rightarrow> string" where
  "ToString None = ''undefined''"
| "ToString (Some s) = s"

subsection \<open>\<^verbatim>\<open>parseInt\<close>\<close>

text \<open>
  \<^verbatim>\<open>parseInt(string)\<close> with no radix: leading white space is skipped, one sign is
  read, a prefix \<^verbatim>\<open>0x\<close> or \<^verbatim>\<open>0X\<close> selects radix 16 (radix 10 otherwise), and the
  longest run of digits of that radix is the value; no digit at all gives \<^verbatim>\<open>NaN\<close>.
  White space is the language's white space and line terminators among the code units
  below 256: tab, line feed, vertical tab, form feed, carriage return, space and the
  no-break space.
\<close>

definition isWhiteSpace :: "char \<Rightarrow> bool" where
  "isWhiteSpace c =
     (c \<in> set [CHR 0x09, CHR 0x0A, CHR 0x0B, CHR 0x0C, CHR 0x0D, CHR 0x20, CHR 0xA0])"

definition isDecimalDigit :: "char \<Rightarrow> bool" where
  "isDecimalDigit c = (c \<in> set ''0123456789'')"

text \<open>The value of a character as a digit; 36 for a character that is no digit.\<close>

definition digitVal :: "char \<Rightarrow> nat" where
  "digitVal c =
     (if c \<in> set ''0123456789'' then of_char c - 48
      else if c \<in> set ''abcdefghijklmnopqrstuvwxyz'' then of_char c - 87
      else if c \<in> set ''ABCDEFGHIJKLMNOPQRSTUVWXYZ'' then of_char c - 55
      else 36)"

definition isRadixDigit :: "nat \<Rightarrow> char \<Rightarrow> bool" where
  "isRadixDigit R c = (digitVal c < R)"

definition digitsValue :: "nat \<Rightarrow> string \<Rightarrow> nat" where
  "digitsValue R Z = foldl (\<lambda>a c. a * R + digitVal c) 0 Z"

fun stripSign :: "string \<Rightarrow> int \<times> string" where
  "stripSign (c # r) =
     (if c = CHR ''-'' then (-1, r) else if c = CHR ''+'' then (1, r) else (1, c # r))"
| "stripSign [] = (1, [])"

fun stripRadixPrefix :: "string \<Rightarrow> nat \<times> string" where
  "stripRadixPrefix (c # x # r) =
     (if c = CHR ''0'' \<and> (x = CHR ''x'' \<or> x = CHR ''X'') then (16, r) else (10, c # x # r))"
| "stripRadixPrefix s = (10, s)"

definition parseInt :: "string \<Rightarrow> number" where
  "parseInt inputString =
     (let S = dropWhile isWhiteSpace inputString;
          (sign, S1) = stripSign S;
          (R, S2) = stripRadixPrefix S1;
          Z = takeWhile (isRadixDigit R) S2
      in if Z = [] then NaN else Num (of_int (sign * int (digitsValue R Z))))"

subsection \<open>\<^verbatim>\<open>parseFloat\<close>\<close>

text \<open>
  \<^verbatim>\<open>parseFloat(string)\<close>: leading white space is skipped and the longest prefix that
  is a decimal literal is the value: a sign, then \<^verbatim>\<open>Infinity\<close> or digits with an
  optional fraction and an optional exponent. No such prefix gives \<^verbatim>\<open>NaN\<close>.
\<close>

definition pow10 :: "int \<Rightarrow> rat" where
  "pow10 k = (if 0 \<le> k then 10 ^ nat k else 1 / 10 ^ nat (- k))"

fun fractionPart :: "string \<Rightarrow> string \<times> string" where
  "fractionPart (c # r) =
     (if c = CHR ''.'' then (takeWhile isDecimalDigit r, dropWhile isDecimalDigit r)
      else ([], c # r))"
| "fractionPart [] = ([], [])"

fun exponentPart :: "string \<Rightarrow> int" where
  "exponentPart (c # r) =
     (if c = CHR ''e'' \<or> c = CHR ''E'' then
        (let (esign, r1) = stripSign r; ds = takeWhile isDecimalDigit r1
         in if ds = [] then 0 else esign * int (digitsValue 10 ds))
      else 0)"
| "exponentPart [] = 0"

definition parseFloat :: "string \<Rightarrow> number" where
  "parseFloat inputString =
     (let trimmed = dropWhile isWhiteSpace inputString;
          (sign, r) = stripSign trimmed
      in if take 8 r = ''Infinity'' then (if sign = 1 then PosInfinity else NegInfinity)
         else
           (let ip = takeWhile isDecimalDigit r;
                (fp, r2) = fractionPart (dropWhile isDecimalDigit r)
            in if ip = [] \<and> fp = [] then NaN
               else Num (of_int sign * of_nat (digitsValue 10 (ip @ fp))
                         * pow10 (exponentPart r2 - int (length fp)))))"

subsection \<open>Objects\<close>

text \<open>
  A JavaScript object with string values (the parsed query string, the filter object)
  is an association list in insertion order. Reading a property is \<open>map_of\<close>
  (\<open>None\<close> is \<^verbatim>\<open>undefined\<close>); assigning one is \<open>AList.update\<close>, which overwrites
  in place or appends. An object holds a key once; of a list that repeats a key the
  first entry is the one that is read.
\<close>

type_synonym obj = "(string \<times> string) list"

text \<open>\<^verbatim>\<open>Array.prototype.join\<close>.\<close>

fun join :: "string \<Rightarrow> string list \<Rightarrow> string" where
  "join sep [] = []"
| "join sep [x] = x"
| "join sep (x # y # ys) = x @ sep @ join sep (y # ys)"

section \<open>Route helpers (src/routes/places.js)\<close>

definition MAX_LIMIT :: number where
  "MAX_LIMIT = Num 10000"

definition DEFAULT_LIMIT :: number where
  "DEFAULT_LIMIT = Num 100"

text \<open>
  \<^verbatim>\<open>const limit = parseInt(limitStr) || DEFAULT_LIMIT;
  return Math.min(Math.max(1, limit), MAX_LIMIT);\<close>
\<close>

definition parseLimit :: "string option \<Rightarrow> number" where
  "parseLimit limitStr =
     (let limit = or_else (parseInt (ToString limitStr)) DEFAULT_LIMIT
      in Math_min (Math_max (Num 1) limit) MAX_LIMIT)"

text \<open>
  \<^verbatim>\<open>extractFilters(query)\<close>: copies the listed keys that are not \<^verbatim>\<open>undefined\<close> into a
  fresh object, in the order of the list.
\<close>

definition filterKeys :: "string list" where
  "filterKeys =
     [''city'', ''state'', ''type'', ''country_code'', ''country'', ''borough'', ''place_id'',
      ''reviews'', ''reviews_min'', ''reviews_max'',
      ''rating'', ''rating_min'', ''rating_max'',
      ''name_contains'']"

definition extractStep :: "obj \<Rightarrow> obj \<Rightarrow> string \<Rightarrow> obj" where
  "extractStep query filters key =
     (case map_of query key of None \<Rightarrow> filters | Some v \<Rightarrow> AList.update key v filters)"

definition extractFilters :: "obj \<Rightarrow> obj" where
  "extractFilters query = foldl (extractStep query) [] filterKeys"

section \<open>The WHERE-clause builder (src/database.js)\<close>

datatype param = PStr string | PNum number

text \<open>The two arrays \<^verbatim>\<open>conditions\<close> and \<^verbatim>\<open>params\<close>, pushed to together.\<close>

type_synonym builder = "string list \<times> param list"

definition push :: "string \<Rightarrow> param \<Rightarrow> builder \<Rightarrow> builder" where
  "push condition p b = (fst b @ [condition], snd b @ [p])"

definition equalityFields :: "string list" where
  "equalityFields =
     [''city'', ''state'', ''type'', ''county_code'', ''county'', ''borough'', ''place_id'']"

text \<open>\<^verbatim>\<open>if (filters[field]) { conditions.push(`${field} = ?`); params.push(filters[field]); }\<close>\<close>

definition equalityStep :: "obj \<Rightarrow> builder \<Rightarrow> string \<Rightarrow> builder" where
  "equalityStep filters b field =
     (case map_of filters field of
        None \<Rightarrow> b
      | Some v \<Rightarrow> if v \<noteq> [] then push (field @ '' = ?'') (PStr v) b else b)"

text \<open>\<^verbatim>\<open>if (filters.key !== undefined) { conditions.push(cond); params.push(parse(filters.key)); }\<close>\<close>

definition numericStep ::
  "(string \<Rightarrow> number) \<Rightarrow> obj \<Rightarrow> string \<Rightarrow> string \<Rightarrow> builder \<Rightarrow> builder" where
  "numericStep parse filters key condition b =
     (case map_of filters key of
        None \<Rightarrow> b
      | Some v \<Rightarrow> push condition (PNum (parse v)) b)"

text \<open>\<^verbatim>\<open>if (filters.name_contains) { conditions.push('name LIKE ?'); params.push(`%${...}%`); }\<close>\<close>

definition likeStep :: "obj \<Rightarrow> builder \<Rightarrow> builder" where
  "likeStep filters b =
     (case map_of filters ''name_contains'' of
        None \<Rightarrow> b
      | Some v \<Rightarrow> if v \<noteq> [] then push ''name LIKE ?'' (PStr (''%'' @ v @ ''%'')) b else b)"

definition buildConditions :: "obj \<Rightarrow> builder" where
  "buildConditions filters =
     (let b0 = foldl (equalityStep filters) ([], []) equalityFields;
          b1 = numericStep parseInt filters ''reviews'' ''reviews = ?'' b0;
          b2 = numericStep parseInt filters ''reviews_min'' ''reviews >= ?'' b1;
          b3 = numericStep parseInt filters ''reviews_max'' ''reviews <= ?'' b2;
          b4 = numericStep parseFloat filters ''rating'' ''rating = ?'' b3;
          b5 = numericStep parseFloat filters ''rating_min'' ''rating >= ?'' b4;
          b6 = numericStep parseFloat filters ''rating_max'' ''rating <= ?'' b5
      in likeStep filters b6)"

record where_result =
  whereClause :: string
  params :: "param list"

definition buildWhereClause :: "obj \<Rightarrow> where_result" where
  "buildWhereClause filters =
     (let (conditions, ps) = buildConditions filters
      in \<lparr>whereClause =
            (if length conditions > 0 then ''WHERE '' @ join '' AND '' conditions else []),
          params = ps\<rparr>)"

section \<open>Buffered queries (src/database.js)\<close>

text \<open>
  The relational store is outside the program: \<^verbatim>\<open>pool.execute(sql, params)\<close> is a
  parameter that either raises (\<open>Inl\<close>, with the error's message) or returns the
  rows. A row is an object from column names to cells.
\<close>

datatype cell = CNull | CNum number | CStr string

type_synonym row = "(string \<times> cell) list"

type_synonym store = "string \<Rightarrow> param list \<Rightarrow> string + row list"

definition query :: "store \<Rightarrow> string \<Rightarrow> param list \<Rightarrow> string + row list" where
  "query execute sql ps = execute sql ps"

definition selectFrom :: string where
  "selectFrom =
     ''\<newline>    SELECT \<newline>'' @
     ''      id, place_id, name, site, type, phone, full_address,\<newline>'' @
     ''      borough, street, city, state, county, county_code,\<newline>'' @
     ''      latitude, longitude, rating, reviews, working_hours, about\<newline>'' @
     ''    FROM places\<newline>    ''"

definition getPlacesSql :: "string \<Rightarrow> string" where
  "getPlacesSql wc =
     selectFrom @ wc @ ''\<newline>    ORDER BY id\<newline>    LIMIT ? OFFSET ?\<newline>  ''"

definition getPlaces :: "store \<Rightarrow> obj \<Rightarrow> number \<Rightarrow> number \<Rightarrow> string + row list" where
  "getPlaces execute filters limit offset =
     (let w = buildWhereClause filters
      in query execute (getPlacesSql (whereClause w)) (params w @ [PNum limit, PNum offset]))"

definition countPlacesSql :: "string \<Rightarrow> string" where
  "countPlacesSql wc = ''SELECT COUNT(*) as total FROM places '' @ wc"

text \<open>
  \<^verbatim>\<open>return result[0].total\<close>: reading \<^verbatim>\<open>total\<close> of \<^verbatim>\<open>undefined\<close> raises a TypeError when
  the result has no row; a row without that column gives \<^verbatim>\<open>undefined\<close> (\<open>None\<close>).
\<close>

definition typeError :: string where
  "typeError = ''TypeError''"

definition countPlaces :: "store \<Rightarrow> obj \<Rightarrow> string + cell option" where
  "countPlaces execute filters =
     (let w = buildWhereClause filters
      in case query execute (countPlacesSql (whereClause w)) (params w) of
           Inl e \<Rightarrow> Inl e
         | Inr result \<Rightarrow>
             (case result of [] \<Rightarrow> Inl typeError | r # _ \<Rightarrow> Inr (map_of r ''total'')))"

subsection \<open>Statistics\<close>

text \<open>Array destructuring \<^verbatim>\<open>const [x] = rows\<close>: the first element, or \<^verbatim>\<open>undefined\<close>.\<close>

fun firstOf :: "'a list \<Rightarrow> 'a option" where
  "firstOf [] = None"
| "firstOf (x # _) = Some x"

definition totalSql :: string where
  "totalSql = ''SELECT COUNT(*) as total FROM places''"

definition topSql :: "string \<Rightarrow> string" where
  "topSql col =
     ''\<newline>    SELECT '' @ col @ '', COUNT(*) as count \<newline>'' @
     ''    FROM places \<newline>'' @
     ''    WHERE '' @ col @ '' IS NOT NULL \<newline>'' @
     ''    GROUP BY '' @ col @ '' \<newline>'' @
     ''    ORDER BY count DESC \<newline>'' @
     ''    LIMIT 10\<newline>  ''"

record stats =
  total_places :: "cell option"
  top_cities :: "row option"
  top_types :: "row option"
  top_county_codes :: "row option"

definition getStats :: "store \<Rightarrow> string + stats" where
  "getStats execute =
     (case query execute totalSql [] of Inl e \<Rightarrow> Inl e | Inr r1 \<Rightarrow>
      case query execute (topSql ''city'') [] of Inl e \<Rightarrow> Inl e | Inr r2 \<Rightarrow>
      case query execute (topSql ''type'') [] of Inl e \<Rightarrow> Inl e | Inr r3 \<Rightarrow>
      case query execute (topSql ''county_code'') [] of Inl e \<Rightarrow> Inl e | Inr r4 \<Rightarrow>
      (let totalResult = firstOf r1; cityStats = firstOf r2;
           typeStats = firstOf r3; countyCodeStats = firstOf r4
       in case totalResult of
            None \<Rightarrow> Inl typeError
          | Some t \<Rightarrow>
              Inr \<lparr>total_places = map_of t ''total'', top_cities = cityStats,
                   top_types = typeStats, top_county_codes = countyCodeStats\<rparr>))"

section \<open>The list handler (src/routes/places.js, GET /)\<close>

text \<open>
  The response of the handler: its status and body. Of the success body the data, the
  limit, offset and total and the filters are kept (\<^verbatim>\<open>count\<close> and \<^verbatim>\<open>has_more\<close> are
  computed from them); of a failure the message.
\<close>

datatype body =
    Success "row list" number number "cell option" obj
  | Failure string

record response =
  status :: nat
  payload :: body

definition listPlaces :: "store \<Rightarrow> obj \<Rightarrow> response" where
  "listPlaces execute q =
     (let filters = extractFilters q;
          limit = parseLimit (map_of q ''limit'');
          offset = or_else (parseInt (ToString (map_of q ''offset''))) (Num 0)
      in case getPlaces execute filters limit offset of
           Inl e \<Rightarrow> \<lparr>status = 500, payload = Failure e\<rparr>
         | Inr places \<Rightarrow>
             (case countPlaces execute filters of
                Inl e \<Rightarrow> \<lparr>status = 500, payload = Failure e\<rparr>
              | Inr total' \<Rightarrow>
                  \<lparr>status = 200, payload = Success places limit offset total' filters\<rparr>))"

section \<open>The streaming export (GET /stream and streamPlaces)\<close>

subsection \<open>\<^verbatim>\<open>JSON.stringify\<close> of the trailer and error records\<close>

text \<open>
  The two records the handler builds itself hold a counter, a boolean and a string.
  A row is serialised by the same library function; its cells come from the driver,
  so the serialisation of a row is a parameter of the handler below.
\<close>

datatype json = JNumber nat | JBool bool | JString string | JObject "(string \<times> json) list"

function decimal :: "nat \<Rightarrow> string" where
  "decimal n =
     (if n < 10 then [char_of (48 + n)] else decimal (n div 10) @ [char_of (48 + n mod 10)])"
  by pat_completeness auto
termination
  by (relation "measure (\<lambda>n. n)") auto

definition hexDigit :: "nat \<Rightarrow> char" where
  "hexDigit d = (if d < 10 then char_of (48 + d) else char_of (87 + d))"

text \<open>
  \<^verbatim>\<open>QuoteJSONString\<close>: the quote and the backslash are escaped, control characters are
  written by their short names or as \<^verbatim>\<open>\u00XX\<close>.
\<close>

definition escapeChar :: "char \<Rightarrow> string" where
  "escapeChar c =
     (if c = CHR 0x22 then [CHR 0x5C, CHR 0x22]
      else if c = CHR 0x5C then [CHR 0x5C, CHR 0x5C]
      else if c = CHR 0x08 then [CHR 0x5C, CHR ''b'']
      else if c = CHR 0x0C then [CHR 0x5C, CHR ''f'']
      else if c = CHR 0x0A then [CHR 0x5C, CHR ''n'']
      else if c = CHR 0x0D then [CHR 0x5C, CHR ''r'']
      else if c = CHR 0x09 then [CHR 0x5C, CHR ''t'']
      else if (of_char c :: nat) < 32
        then [CHR 0x5C, CHR ''u'', CHR ''0'', CHR ''0'',
              hexDigit (of_char c div 16), hexDigit (of_char c mod 16)]
      else [c])"

definition quoteJSON :: "string \<Rightarrow> string" where
  "quoteJSON s = [CHR 0x22] @ concat (map escapeChar s) @ [CHR 0x22]"

fun JSON_stringify :: "json \<Rightarrow> string" where
  "JSON_stringify (JNumber n) = decimal n"
| "JSON_stringify (JBool b) = (if b then ''true'' else ''false'')"
| "JSON_stringify (JString s) = quoteJSON s"
| "JSON_stringify (JObject ms) =
     ''{'' @ join '','' (map (\<lambda>m. quoteJSON (fst m) @ '':'' @ JSON_stringify (snd m)) ms) @ ''}''"

subsection \<open>Events and handlers\<close>

text \<open>
  The row source is an event emitter. Its events \<^verbatim>\<open>data\<close>, \<^verbatim>\<open>end\<close> and \<^verbatim>\<open>error\<close>, and
  the event \<^verbatim>\<open>close\<close> of the request, arrive one at a time; each runs the listeners
  registered for it, in the order of registration (those of \<^verbatim>\<open>streamPlaces\<close> before
  those of the route).
\<close>

datatype event = Data row | End | Error string | Close

text \<open>
  What the listeners act on: the calls of \<^verbatim>\<open>connection.release()\<close> so far, the counter
  of the route, the chunks written to the response, whether \<^verbatim>\<open>res.end()\<close> was called,
  and whether \<^verbatim>\<open>stream.destroy()\<close> was called.
\<close>

record export =
  released :: nat
  counter :: nat
  written :: "string list"
  ended :: bool
  destroyed :: bool

text \<open>The state when \<^verbatim>\<open>streamPlaces\<close> has returned the stream: one connection is out.\<close>

definition started :: export where
  "started = \<lparr>released = 0, counter = 0, written = [], ended = False, destroyed = False\<rparr>"

definition connection_release :: "export \<Rightarrow> export" where
  "connection_release s = s\<lparr>released := released s + 1\<rparr>"

text \<open>A write after \<^verbatim>\<open>res.end()\<close> adds nothing to the response.\<close>

definition res_write :: "string \<Rightarrow> export \<Rightarrow> export" where
  "res_write chunk s = (if ended s then s else s\<lparr>written := written s @ [chunk]\<rparr>)"

definition res_end :: "export \<Rightarrow> export" where
  "res_end s = s\<lparr>ended := True\<rparr>"

definition stream_destroy :: "export \<Rightarrow> export" where
  "stream_destroy s = s\<lparr>destroyed := True\<rparr>"

text \<open>\<^verbatim>\<open>stream.on('data', (row) => { count++; res.write(JSON.stringify(row) + '\n'); })\<close>\<close>

definition onData :: "(row \<Rightarrow> string) \<Rightarrow> row \<Rightarrow> export \<Rightarrow> export" where
  "onData ser r s = res_write (ser r @ ''\<newline>'') (s\<lparr>counter := counter s + 1\<rparr>)"

definition metaRecord :: "nat \<Rightarrow> json" where
  "metaRecord n =
     JObject [(''_meta'', JObject [(''total_streamed'', JNumber n), (''complete'', JBool True)])]"

definition errorRecord :: "string \<Rightarrow> json" where
  "errorRecord message = JObject [(''_error'', JString message)]"

text \<open>
  On \<^verbatim>\<open>end\<close>: the listener of \<^verbatim>\<open>streamPlaces\<close> releases the connection, then the
  listener of the route writes the trailer and ends the response.
\<close>

definition onEnd :: "export \<Rightarrow> export" where
  "onEnd s =
     (let s1 = connection_release s;
          s2 = res_write (JSON_stringify (metaRecord (counter s1)) @ ''\<newline>'') s1
      in res_end s2)"

text \<open>On \<^verbatim>\<open>error\<close>: release, then the error record, then the end of the response.\<close>

definition onError :: "string \<Rightarrow> export \<Rightarrow> export" where
  "onError message s =
     (let s1 = connection_release s;
          s2 = res_write (JSON_stringify (errorRecord message) @ ''\<newline>'') s1
      in res_end s2)"

text \<open>\<^verbatim>\<open>req.on('close', () => { stream.destroy(); })\<close>\<close>

definition onClose :: "export \<Rightarrow> export" where
  "onClose s = stream_destroy s"

text \<open>
  One event runs the listeners registered for it, and nothing else. Which events the row
  source emits, and in which order, is the driver's matter: the code registers its
  listeners with \<^verbatim>\<open>on\<close> and never removes one, and a run is taken over any list of
  events. The statement the row source runs is the one of \<^verbatim>\<open>getPlaces\<close> with the same
  clause from \<^verbatim>\<open>buildWhereClause\<close>; its text plays no part in what the listeners do.
\<close>

fun emit :: "(row \<Rightarrow> string) \<Rightarrow> export \<Rightarrow> event \<Rightarrow> export" where
  "emit ser s Close = onClose s"
| "emit ser s (Data r) = onData ser r s"
| "emit ser s End = onEnd s"
| "emit ser s (Error message) = onError message s"

definition run :: "(row \<Rightarrow> string) \<Rightarrow> event list \<Rightarrow> export" where
  "run ser evs = foldl (emit ser) started evs"

text \<open>The events whose listeners call \<^verbatim>\<open>connection.release()\<close>.\<close>

fun releases :: "event \<Rightarrow> bool" where
  "releases End = True"
| "releases (Error message) = True"
| "releases (Data r) = False"
| "releases Close = False"

section \<open>The specification's reading of the limit and of the filter rules\<close>

text \<open>
  The limit as the specification words it: parsed as an integer, 100 when absent or
  unparseable, then clamped into the interval from 1 to 10000.
\<close>

definition clampLimit :: "number \<Rightarrow> number" where
  "clampLimit n = Math_min (Math_max (Num 1) n) (Num 10000)"

definition parseLimit_spec :: "string option \<Rightarrow> number" where
  "parseLimit_spec limitStr =
     (case limitStr of
        None \<Rightarrow> Num 100
      | Some s \<Rightarrow> (if parseInt s = NaN then Num 100 else clampLimit (parseInt s)))"

text \<open>The same with the one addition that a limit parsed as zero is replaced by 100 too.\<close>

definition parseLimit_zero_default :: "string option \<Rightarrow> number" where
  "parseLimit_zero_default limitStr =
     (case limitStr of
        None \<Rightarrow> Num 100
      | Some s \<Rightarrow>
          (if parseInt s = NaN \<or> parseInt s = Num 0 then Num 100 else clampLimit (parseInt s)))"

text \<open>
  A predicate is a column, an operator and the bound value. The filter rules are a table
  in the fixed order of the specification: the key, its column, its operator and how
  the raw value is read.
\<close>

datatype operator = EQ | GTE | LTE | LIKE

type_synonym predicate = "string \<times> operator \<times> param"

datatype reading = Verbatim | AsInteger | AsDecimal | Wrapped

type_synonym filterRule = "string \<times> string \<times> operator \<times> reading"

definition filterRules :: "filterRule list" where
  "filterRules =
     [(''city'', ''city'', EQ, Verbatim),
      (''state'', ''state'', EQ, Verbatim),
      (''type'', ''type'', EQ, Verbatim),
      (''county_code'', ''county_code'', EQ, Verbatim),
      (''county'', ''county'', EQ, Verbatim),
      (''borough'', ''borough'', EQ, Verbatim),
      (''place_id'', ''place_id'', EQ, Verbatim),
      (''reviews'', ''reviews'', EQ, AsInteger),
      (''reviews_min'', ''reviews'', GTE, AsInteger),
      (''reviews_max'', ''reviews'', LTE, AsInteger),
      (''rating'', ''rating'', EQ, AsDecimal),
      (''rating_min'', ''rating'', GTE, AsDecimal),
      (''rating_max'', ''rating'', LTE, AsDecimal),
      (''name_contains'', ''name'', LIKE, Wrapped)]"

text \<open>
  Whether a rule applies to a raw value: the equality and substring rules need a
  non-empty value, the numeric rules a present one.
\<close>

fun included :: "reading \<Rightarrow> string option \<Rightarrow> bool" where
  "included _ None = False"
| "included Verbatim (Some v) = (v \<noteq> [])"
| "included Wrapped (Some v) = (v \<noteq> [])"
| "included AsInteger (Some v) = True"
| "included AsDecimal (Some v) = True"

fun boundValue :: "reading \<Rightarrow> string \<Rightarrow> param" where
  "boundValue Verbatim v = PStr v"
| "boundValue AsInteger v = PNum (parseInt v)"
| "boundValue AsDecimal v = PNum (parseFloat v)"
| "boundValue Wrapped v = PStr (''%'' @ v @ ''%'')"

fun predicateOf :: "obj \<Rightarrow> filterRule \<Rightarrow> predicate list" where
  "predicateOf filters (key, col, opr, rd) =
     (case map_of filters key of
        None \<Rightarrow> []
      | Some v \<Rightarrow> if included rd (Some v) then [(col, opr, boundValue rd v)] else [])"

definition predicates :: "obj \<Rightarrow> predicate list" where
  "predicates filters = concat (map (predicateOf filters) filterRules)"

fun operatorText :: "operator \<Rightarrow> string" where
  "operatorText EQ = ''=''"
| "operatorText GTE = ''>=''"
| "operatorText LTE = ''<=''"
| "operatorText LIKE = ''LIKE''"

fun conditionText :: "predicate \<Rightarrow> string" where
  "conditionText (col, opr, p) = col @ '' '' @ operatorText opr @ '' ?''"

fun boundParam :: "predicate \<Rightarrow> param" where
  "boundParam (col, opr, p) = p"

text \<open>The keys the builder reads, and two ways to say which of them a mapping uses.\<close>

definition builderKeys :: "string list" where
  "builderKeys =
     equalityFields @
     [''reviews'', ''reviews_min'', ''reviews_max'',
      ''rating'', ''rating_min'', ''rating_max'', ''name_contains'']"

definition presentKeys :: "obj \<Rightarrow> string list" where
  "presentKeys filters = filter (\<lambda>key. map_of filters key \<noteq> None) builderKeys"

fun ruleIncluded :: "obj \<Rightarrow> filterRule \<Rightarrow> bool" where
  "ruleIncluded filters (key, col, opr, rd) = included rd (map_of filters key)"

definition includedKeys :: "obj \<Rightarrow> string list" where
  "includedKeys filters = map fst (filter (ruleIncluded filters) filterRules)"

text \<open>The two parallel arrays that a list of predicates stands for.\<close>

definition listing :: "predicate list \<Rightarrow> builder" where
  "listing ps = (map conditionText ps, map boundParam ps)"

text \<open>The text of the clause as a function of a list of keys alone.\<close>

fun ruleCondition :: "filterRule \<Rightarrow> string" where
  "ruleCondition (key, col, opr, rd) = col @ '' '' @ operatorText opr @ '' ?''"

definition conditionOfKey :: "string \<Rightarrow> string" where
  "conditionOfKey key =
     (case map_of filterRules key of
        None \<Rightarrow> []
      | Some (col, opr, rd) \<Rightarrow> col @ '' '' @ operatorText opr @ '' ?'')"

definition whereOfKeys :: "string list \<Rightarrow> string" where
  "whereOfKeys keys =
     (if keys = [] then [] else ''WHERE '' @ join '' AND '' (map conditionOfKey keys))"

section \<open>Stores used as concrete inputs\<close>

text \<open>A store that accepts every statement and answers it with one row.\<close>

definition acceptingStore :: store where
  "acceptingStore sql ps = Inr [[(''total'', CNum (Num 0))]]"

text \<open>
  A store over a table of three places, two in Berlin and one in Munich, with no type
  and no county code: its answers to the four statements of \<^verbatim>\<open>getStats\<close>.
\<close>

definition threePlaces :: store where
  "threePlaces sql ps =
     (if sql = totalSql then Inr [[(''total'', CNum (Num 3))]]
      else if sql = topSql ''city'' then
        Inr [[(''city'', CStr ''Berlin''), (''count'', CNum (Num 2))],
             [(''city'', CStr ''Munich''), (''count'', CNum (Num 1))]]
      else Inr [])"

section \<open>Properties of the limit\<close>

lemma parseInt_cases: "parseInt s = NaN \<or> (\<exists>n::int. parseInt s = Num (of_int n))"
proof -
  obtain sign S1 where a: "stripSign (dropWhile isWhiteSpace s) = (sign, S1)"
    by (cases "stripSign (dropWhile isWhiteSpace s)")
  obtain R S2 where b: "stripRadixPrefix S1 = (R, S2)"
    by (cases "stripRadixPrefix S1")
  show ?thesis
  proof (cases "takeWhile (isRadixDigit R) S2 = []")
    case True
    with a b show ?thesis by (simp add: parseInt_def)
  next
    case False
    with a b have
      "parseInt s = Num (of_int (sign * int (digitsValue R (takeWhile (isRadixDigit R) S2))))"
      by (simp add: parseInt_def del: of_int_mult of_int_of_nat_eq)
    then show ?thesis by blast
  qed
qed

lemmas parseInt_eval =
  parseInt_def isWhiteSpace_def isRadixDigit_def digitVal_def digitsValue_def

lemmas parseLimit_eval =
  parseLimit_def or_else_def MAX_LIMIT_def DEFAULT_LIMIT_def parseInt_eval

lemma parseInt_undefined: "parseInt ''undefined'' = NaN"
  by (simp add: parseInt_eval)

lemma clampLimit_range: "\<exists>r. clampLimit (Num x) = Num r \<and> 1 \<le> r \<and> r \<le> 10000"
  by (simp add: clampLimit_def)

text \<open>
  Claim C10, as the code has it. \<^verbatim>\<open>parseLimit\<close> maps "0", the empty string and an absent
  limit to 100, "999999" to 10000 and "-5" to 1. For every input the limit is parsed as an
  integer, replaced by 100 when it is absent, unparseable or zero, and then clamped into
  the interval from 1 to 10000.
\<close>

theorem parseLimit_default_and_clamp:
  "parseLimit limitStr = parseLimit_zero_default limitStr
   \<and> (\<exists>r. parseLimit limitStr = Num r \<and> 1 \<le> r \<and> r \<le> 10000)
   \<and> parseLimit (Some ''0'') = Num 100
   \<and> parseLimit (Some []) = Num 100
   \<and> parseLimit None = Num 100
   \<and> parseLimit (Some ''999999'') = Num 10000
   \<and> parseLimit (Some ''-5'') = Num 1"
proof -
  have general: "parseLimit x = parseLimit_zero_default x" for x
  proof (cases x)
    case None
    then show ?thesis
      by (simp add: parseLimit_def parseLimit_zero_default_def parseInt_undefined
          or_else_def DEFAULT_LIMIT_def MAX_LIMIT_def)
  next
    case (Some s)
    from parseInt_cases [of s] show ?thesis
    proof
      assume "parseInt s = NaN"
      with Some show ?thesis
        by (simp add: parseLimit_def parseLimit_zero_default_def or_else_def
            DEFAULT_LIMIT_def MAX_LIMIT_def)
    next
      assume "\<exists>n::int. parseInt s = Num (of_int n)"
      then obtain n :: int where "parseInt s = Num (of_int n)" ..
      with Some show ?thesis
        by (simp add: parseLimit_def parseLimit_zero_default_def or_else_def
            DEFAULT_LIMIT_def MAX_LIMIT_def clampLimit_def)
    qed
  qed
  have range: "\<exists>r. parseLimit_zero_default x = Num r \<and> 1 \<le> r \<and> r \<le> 10000" for x
  proof (cases x)
    case None
    then show ?thesis by (simp add: parseLimit_zero_default_def)
  next
    case (Some s)
    from parseInt_cases [of s] show ?thesis
    proof
      assume "parseInt s = NaN"
      with Some show ?thesis by (simp add: parseLimit_zero_default_def)
    next
      assume "\<exists>n::int. parseInt s = Num (of_int n)"
      then obtain n :: int where n: "parseInt s = Num (of_int n)" ..
      from clampLimit_range [of "of_int n"] Some n show ?thesis
        by (simp add: parseLimit_zero_default_def)
    qed
  qed
  have e1: "parseLimit (Some ''0'') = Num 100" by (simp add: parseLimit_eval)
  have e2: "parseLimit (Some []) = Num 100" by (simp add: parseLimit_eval)
  have e3: "parseLimit None = Num 100" by (simp add: parseLimit_eval)
  have e4: "parseLimit (Some ''999999'') = Num 10000" by (simp add: parseLimit_eval)
  have e5: "parseLimit (Some ''-5'') = Num 1" by (simp add: parseLimit_eval)
  from general [of limitStr] range [of limitStr]
  have "\<exists>r. parseLimit limitStr = Num r \<and> 1 \<le> r \<and> r \<le> 10000"
    by (simp only:)
  with general [of limitStr] e1 e2 e3 e4 e5 show ?thesis by (intro conjI)
qed

text \<open>
  The specification's wording without the zero case is not what the code computes:
  "0" is parsed as the integer 0, which the wording clamps to 1, and the code answers 100.
\<close>

theorem parseLimit_zero_counterexample:
  "parseInt ''0'' = Num 0 \<and> parseLimit (Some ''0'') = Num 100
   \<and> parseLimit_spec (Some ''0'') = Num 1"
  by (simp add: parseLimit_eval parseLimit_spec_def clampLimit_def)

section \<open>The builder against the table of rules\<close>

lemma listing_Nil: "([], []) = listing []"
  by (simp add: listing_def)

lemma push_listing: "push (conditionText p) (boundParam p) (listing ps) = listing (ps @ [p])"
  by (simp add: push_def listing_def)

lemma equalityStep_listing:
  "equalityStep f (listing ps) key = listing (ps @ predicateOf f (key, key, EQ, Verbatim))"
proof (cases "map_of f key")
  case None
  then show ?thesis by (simp add: equalityStep_def)
next
  case (Some v)
  show ?thesis
  proof (cases "v = []")
    case True
    with Some show ?thesis by (simp add: equalityStep_def)
  next
    case False
    from push_listing [of "(key, EQ, PStr v)" ps] Some False show ?thesis
      by (simp add: equalityStep_def)
  qed
qed

lemma integerStep_listing:
  "numericStep parseInt f key (conditionText (col, opr, p0)) (listing ps) =
   listing (ps @ predicateOf f (key, col, opr, AsInteger))"
proof (cases "map_of f key")
  case None
  then show ?thesis by (simp add: numericStep_def)
next
  case (Some v)
  from push_listing [of "(col, opr, PNum (parseInt v))" ps] Some show ?thesis
    by (simp add: numericStep_def)
qed

lemma decimalStep_listing:
  "numericStep parseFloat f key (conditionText (col, opr, p0)) (listing ps) =
   listing (ps @ predicateOf f (key, col, opr, AsDecimal))"
proof (cases "map_of f key")
  case None
  then show ?thesis by (simp add: numericStep_def)
next
  case (Some v)
  from push_listing [of "(col, opr, PNum (parseFloat v))" ps] Some show ?thesis
    by (simp add: numericStep_def)
qed

lemma likeStep_listing:
  "likeStep f (listing ps) = listing (ps @ predicateOf f (''name_contains'', ''name'', LIKE, Wrapped))"
proof (cases "map_of f ''name_contains''")
  case None
  then show ?thesis by (simp add: likeStep_def)
next
  case (Some v)
  show ?thesis
  proof (cases "v = []")
    case True
    with Some show ?thesis by (simp add: likeStep_def)
  next
    case False
    from push_listing [of "(''name'', LIKE, PStr (''%'' @ v @ ''%''))" ps] Some False
    show ?thesis by (simp add: likeStep_def)
  qed
qed

lemma buildConditions_listing: "buildConditions f = listing (predicates f)"
proof -
  have c1: "''reviews = ?'' = conditionText (''reviews'', EQ, PNum NaN)" by simp
  have c2: "''reviews >= ?'' = conditionText (''reviews'', GTE, PNum NaN)" by simp
  have c3: "''reviews <= ?'' = conditionText (''reviews'', LTE, PNum NaN)" by simp
  have c4: "''rating = ?'' = conditionText (''rating'', EQ, PNum NaN)" by simp
  have c5: "''rating >= ?'' = conditionText (''rating'', GTE, PNum NaN)" by simp
  have c6: "''rating <= ?'' = conditionText (''rating'', LTE, PNum NaN)" by simp
  show ?thesis
    unfolding buildConditions_def Let_def equalityFields_def predicates_def filterRules_def
      foldl.simps listing_Nil equalityStep_listing
    unfolding c1 c2 c3 c4 c5 c6 integerStep_listing decimalStep_listing likeStep_listing
    by (simp only: append_Nil append_assoc list.map concat.simps append_Nil2)
qed


lemma whereClause_predicates:
  "whereClause (buildWhereClause f) =
     (if predicates f = [] then []
      else ''WHERE '' @ join '' AND '' (map conditionText (predicates f)))"
  by (simp add: buildWhereClause_def buildConditions_listing listing_def)

lemma params_predicates: "params (buildWhereClause f) = map boundParam (predicates f)"
  by (simp add: buildWhereClause_def buildConditions_listing listing_def)

text \<open>
  Claim C4. For every filter mapping the conditions and the bound parameters that
  \<^verbatim>\<open>buildWhereClause\<close> collects are the texts and the values of one list of predicates,
  so they have equal length, and that list follows the fixed order of the rules: the
  equality fields in their listed order, then reviews (EQ), reviews_min (GTE),
  reviews_max (LTE), rating (EQ), rating_min (GTE), rating_max (LTE) and name_contains
  (LIKE, wrapped in percent signs).
\<close>

theorem buildWhereClause_fixed_order:
  "buildConditions f = (map conditionText (predicates f), map boundParam (predicates f))
   \<and> length (fst (buildConditions f)) = length (snd (buildConditions f))
   \<and> params (buildWhereClause f) = map boundParam (predicates f)
   \<and> whereClause (buildWhereClause f) =
       (if predicates f = [] then []
        else ''WHERE '' @ join '' AND '' (map conditionText (predicates f)))
   \<and> predicates f =
       predicateOf f (''city'', ''city'', EQ, Verbatim) @
       predicateOf f (''state'', ''state'', EQ, Verbatim) @
       predicateOf f (''type'', ''type'', EQ, Verbatim) @
       predicateOf f (''county_code'', ''county_code'', EQ, Verbatim) @
       predicateOf f (''county'', ''county'', EQ, Verbatim) @
       predicateOf f (''borough'', ''borough'', EQ, Verbatim) @
       predicateOf f (''place_id'', ''place_id'', EQ, Verbatim) @
       predicateOf f (''reviews'', ''reviews'', EQ, AsInteger) @
       predicateOf f (''reviews_min'', ''reviews'', GTE, AsInteger) @
       predicateOf f (''reviews_max'', ''reviews'', LTE, AsInteger) @
       predicateOf f (''rating'', ''rating'', EQ, AsDecimal) @
       predicateOf f (''rating_min'', ''rating'', GTE, AsDecimal) @
       predicateOf f (''rating_max'', ''rating'', LTE, AsDecimal) @
       predicateOf f (''name_contains'', ''name'', LIKE, Wrapped)"
proof -
  have a: "buildConditions f = (map conditionText (predicates f), map boundParam (predicates f))"
    using buildConditions_listing [of f] by (simp only: listing_def)
  have b: "length (fst (buildConditions f)) = length (snd (buildConditions f))"
    by (simp add: a)
  have c: "predicates f =
       predicateOf f (''city'', ''city'', EQ, Verbatim) @
       predicateOf f (''state'', ''state'', EQ, Verbatim) @
       predicateOf f (''type'', ''type'', EQ, Verbatim) @
       predicateOf f (''county_code'', ''county_code'', EQ, Verbatim) @
       predicateOf f (''county'', ''county'', EQ, Verbatim) @
       predicateOf f (''borough'', ''borough'', EQ, Verbatim) @
       predicateOf f (''place_id'', ''place_id'', EQ, Verbatim) @
       predicateOf f (''reviews'', ''reviews'', EQ, AsInteger) @
       predicateOf f (''reviews_min'', ''reviews'', GTE, AsInteger) @
       predicateOf f (''reviews_max'', ''reviews'', LTE, AsInteger) @
       predicateOf f (''rating'', ''rating'', EQ, AsDecimal) @
       predicateOf f (''rating_min'', ''rating'', GTE, AsDecimal) @
       predicateOf f (''rating_max'', ''rating'', LTE, AsDecimal) @
       predicateOf f (''name_contains'', ''name'', LIKE, Wrapped)"
    unfolding predicates_def filterRules_def
    by (simp only: list.map concat.simps append_Nil2)
  from a b c params_predicates [of f] whereClause_predicates [of f] show ?thesis
    by (intro conjI)
qed

theorem buildWhereClause_fixed_order_witness:
  "buildConditions [(''name_contains'', ''pi''), (''rating_min'', ''4.5''), (''city'', ''Berlin'')] =
     ([''city = ?'', ''rating >= ?'', ''name LIKE ?''],
      [PStr ''Berlin'', PNum (Num (9 / 2)), PStr ''%pi%''])"
proof -
  have "predicates [(''name_contains'', ''pi''), (''rating_min'', ''4.5''), (''city'', ''Berlin'')] =
      [(''city'', EQ, PStr ''Berlin''), (''rating'', GTE, PNum (Num (9 / 2))),
       (''name'', LIKE, PStr ''%pi%'')]"
    by (simp add: predicates_def filterRules_def parseFloat_def isWhiteSpace_def
        isDecimalDigit_def digitsValue_def digitVal_def pow10_def)
  with buildWhereClause_fixed_order
    [of "[(''name_contains'', ''pi''), (''rating_min'', ''4.5''), (''city'', ''Berlin'')]"]
  show ?thesis by simp
qed


section \<open>The clause text and the values\<close>

lemma conditionOfKey_rule:
  "rule \<in> set filterRules \<Longrightarrow> conditionOfKey (fst rule) = ruleCondition rule"
  by (auto simp add: filterRules_def conditionOfKey_def)

lemma conditionText_predicateOf:
  "map conditionText (predicateOf f rule) = (if ruleIncluded f rule then [ruleCondition rule] else [])"
proof -
  obtain key col opr rd where r: "rule = (key, col, opr, rd)"
    by (cases rule) auto
  show ?thesis
    by (cases "map_of f key") (simp_all add: r)
qed

lemma conditions_filter:
  "map conditionText (concat (map (predicateOf f) rules)) =
   map ruleCondition (filter (ruleIncluded f) rules)"
proof (induction rules)
  case Nil
  show ?case by simp
next
  case (Cons rule rules)
  then show ?case by (simp add: conditionText_predicateOf)
qed

lemma conditions_includedKeys:
  "map conditionText (predicates f) = map conditionOfKey (includedKeys f)"
proof -
  have "map ruleCondition (filter (ruleIncluded f) filterRules) =
        map (\<lambda>rule. conditionOfKey (fst rule)) (filter (ruleIncluded f) filterRules)"
    by (rule map_cong) (simp_all add: conditionOfKey_rule)
  then show ?thesis
    by (simp add: predicates_def conditions_filter includedKeys_def comp_def)
qed

lemma predicates_Nil_iff: "predicates f = [] \<longleftrightarrow> includedKeys f = []"
proof -
  have "length (map conditionText (predicates f)) = length (map conditionOfKey (includedKeys f))"
    by (simp only: conditions_includedKeys)
  then have "length (predicates f) = length (includedKeys f)"
    by simp
  then show ?thesis
    by (metis length_0_conv)
qed

lemma whereClause_includedKeys: "whereClause (buildWhereClause f) = whereOfKeys (includedKeys f)"
  by (simp add: whereClause_predicates whereOfKeys_def conditions_includedKeys predicates_Nil_iff)

text \<open>
  Claim C2, as the code has it. The text of the WHERE clause is a function of the list of
  included keys alone: the keys of the equality fields and of name_contains whose value
  is present and non-empty, and the keys of the numeric filters that are present. Two
  filter mappings with the same included keys give the same text, whatever their values;
  the values travel in the bound parameters only.
\<close>

theorem whereClause_depends_on_included_keys:
  "whereClause (buildWhereClause f) = whereOfKeys (includedKeys f)
   \<and> (includedKeys f = includedKeys g \<longrightarrow>
        whereClause (buildWhereClause f) = whereClause (buildWhereClause g))"
  by (simp add: whereClause_includedKeys)

theorem whereClause_depends_on_included_keys_witness:
  "includedKeys [(''city'', ''Berlin''), (''reviews_min'', ''20'')] =
     includedKeys [(''reviews_min'', ''abc''), (''city'', ''Paris'')]
   \<and> whereClause (buildWhereClause [(''city'', ''Berlin''), (''reviews_min'', ''20'')]) =
     whereClause (buildWhereClause [(''reviews_min'', ''abc''), (''city'', ''Paris'')])"
proof -
  have k: "includedKeys [(''city'', ''Berlin''), (''reviews_min'', ''20'')] =
           includedKeys [(''reviews_min'', ''abc''), (''city'', ''Paris'')]"
    by (simp add: includedKeys_def filterRules_def)
  with whereClause_depends_on_included_keys
    [of "[(''city'', ''Berlin''), (''reviews_min'', ''20'')]"
        "[(''reviews_min'', ''abc''), (''city'', ''Paris'')]"]
  show ?thesis by blast
qed

text \<open>
  The text does depend on a value in one respect: with the same keys present, an empty
  value leaves the equality predicate out and a non-empty one puts it in.
\<close>

theorem whereClause_empty_value_counterexample:
  "presentKeys [(''city'', [])] = presentKeys [(''city'', ''Berlin'')]
   \<and> whereClause (buildWhereClause [(''city'', [])]) = []
   \<and> whereClause (buildWhereClause [(''city'', ''Berlin'')]) = ''WHERE city = ?''"
  by (simp add: presentKeys_def builderKeys_def equalityFields_def
      whereClause_predicates predicates_def filterRules_def)


section \<open>Keys outside the lists\<close>

lemma map_of_update_other: "key \<noteq> k \<Longrightarrow> map_of (AList.update k v al) key = map_of al key"
  by (simp add: update_conv')

lemma predicateOf_update:
  "fst rule \<noteq> k \<Longrightarrow> predicateOf (AList.update k v f) rule = predicateOf f rule"
proof -
  obtain key col opr rd where r: "rule = (key, col, opr, rd)"
    by (cases rule) auto
  assume "fst rule \<noteq> k"
  with r have "map_of (AList.update k v f) key = map_of f key"
    by (simp add: map_of_update_other)
  with r show ?thesis by simp
qed

lemma map_of_delete_other: "key \<noteq> k \<Longrightarrow> map_of (AList.delete k al) key = map_of al key"
  by (simp add: delete_conv')

lemma predicateOf_delete:
  "fst rule \<noteq> k \<Longrightarrow> predicateOf (AList.delete k f) rule = predicateOf f rule"
proof -
  obtain key col opr rd where r: "rule = (key, col, opr, rd)"
    by (cases rule) auto
  assume "fst rule \<noteq> k"
  with r have "map_of (AList.delete k f) key = map_of f key"
    by (simp add: map_of_delete_other)
  with r show ?thesis by simp
qed

lemma builderKeys_rules: "map fst filterRules = builderKeys"
  by (simp add: filterRules_def builderKeys_def equalityFields_def)

lemma predicates_update:
  assumes "k \<notin> set builderKeys"
  shows "predicates (AList.update k v f) = predicates f"
proof -
  have "map (predicateOf (AList.update k v f)) filterRules = map (predicateOf f) filterRules"
  proof (rule map_cong)
    fix rule assume "rule \<in> set filterRules"
    then have "fst rule \<in> set (map fst filterRules)" by simp
    with assms have "fst rule \<noteq> k" by (auto simp add: builderKeys_rules)
    then show "predicateOf (AList.update k v f) rule = predicateOf f rule"
      by (rule predicateOf_update)
  qed simp
  then show ?thesis by (simp only: predicates_def)
qed

lemma predicates_delete:
  assumes "k \<notin> set builderKeys"
  shows "predicates (AList.delete k f) = predicates f"
proof -
  have "map (predicateOf (AList.delete k f)) filterRules = map (predicateOf f) filterRules"
  proof (rule map_cong)
    fix rule assume "rule \<in> set filterRules"
    then have "fst rule \<in> set (map fst filterRules)" by simp
    with assms have "fst rule \<noteq> k" by (auto simp add: builderKeys_rules)
    then show "predicateOf (AList.delete k f) rule = predicateOf f rule"
      by (rule predicateOf_delete)
  qed simp
  then show ?thesis by (simp only: predicates_def)
qed

lemma extractStep_update:
  "key \<noteq> k \<Longrightarrow> extractStep (AList.update k v q) acc key = extractStep q acc key"
  by (simp add: extractStep_def map_of_update_other)

lemma foldl_extractStep_update:
  "k \<notin> set keys \<Longrightarrow>
   foldl (extractStep (AList.update k v q)) acc keys = foldl (extractStep q) acc keys"
proof (induction keys arbitrary: acc)
  case Nil
  show ?case by simp
next
  case (Cons key keys)
  then have "key \<noteq> k" and "k \<notin> set keys" by auto
  with Cons.IH show ?case by (simp add: extractStep_update)
qed

lemma predicateOf_column: "p \<in> set (predicateOf f rule) \<Longrightarrow> fst p = fst (snd rule)"
proof -
  obtain key col opr rd where r: "rule = (key, col, opr, rd)"
    by (cases rule) auto
  assume "p \<in> set (predicateOf f rule)"
  with r show ?thesis
    by (cases "map_of f key") (auto split: if_splits)
qed

lemma predicates_columns:
  "set (map fst (predicates f)) \<subseteq> set (map (\<lambda>rule. fst (snd rule)) filterRules)"
proof
  fix c assume "c \<in> set (map fst (predicates f))"
  then obtain p where p: "p \<in> set (predicates f)" and c: "c = fst p" by auto
  from p obtain rule where rule: "rule \<in> set filterRules" and "p \<in> set (predicateOf f rule)"
    by (auto simp add: predicates_def)
  then have "fst p = fst (snd rule)" by (simp add: predicateOf_column)
  with c rule show "c \<in> set (map (\<lambda>rule. fst (snd rule)) filterRules)" by auto
qed

text \<open>
  Claim C5. A key outside the builder's fixed list contributes nothing: setting it to
  any value leaves the clause and the bound parameters as they were, and every column
  of a predicate is a column of the fixed rules. The route before it copies the keys
  of its own fixed list only, so a key outside that list never reaches the builder.
\<close>

theorem unlisted_key_contributes_nothing:
  "(k \<notin> set builderKeys \<longrightarrow>
      buildWhereClause (AList.update k v f) = buildWhereClause f
      \<and> buildWhereClause (AList.delete k f) = buildWhereClause f)
   \<and> (k \<notin> set filterKeys \<longrightarrow>
      extractFilters (AList.update k v q) = extractFilters q)
   \<and> set (map fst (predicates f)) \<subseteq>
        {''city'', ''state'', ''type'', ''county_code'', ''county'', ''borough'', ''place_id'',
         ''reviews'', ''rating'', ''name''}
   \<and> buildConditions f = (map conditionText (predicates f), map boundParam (predicates f))"
proof -
  have a: "k \<notin> set builderKeys \<longrightarrow>
      buildWhereClause (AList.update k v f) = buildWhereClause f
      \<and> buildWhereClause (AList.delete k f) = buildWhereClause f"
    by (simp add: buildWhereClause_def buildConditions_listing predicates_update
        predicates_delete)
  have b: "k \<notin> set filterKeys \<longrightarrow> extractFilters (AList.update k v q) = extractFilters q"
    by (simp add: extractFilters_def foldl_extractStep_update)
  have "set (map (\<lambda>rule. fst (snd rule)) filterRules) =
        {''city'', ''state'', ''type'', ''county_code'', ''county'', ''borough'', ''place_id'',
         ''reviews'', ''rating'', ''name''}"
    by (auto simp add: filterRules_def)
  with predicates_columns [of f]
  have c: "set (map fst (predicates f)) \<subseteq>
        {''city'', ''state'', ''type'', ''county_code'', ''county'', ''borough'', ''place_id'',
         ''reviews'', ''rating'', ''name''}"
    by (simp only:)
  have d: "buildConditions f = (map conditionText (predicates f), map boundParam (predicates f))"
    using buildConditions_listing [of f] by (simp only: listing_def)
  from a b c d show ?thesis by (intro conjI)
qed

theorem unlisted_key_contributes_nothing_witness:
  "''sort'' \<notin> set builderKeys \<and> ''sort'' \<notin> set filterKeys
   \<and> buildWhereClause (AList.update ''sort'' ''id; DROP TABLE places'' [(''city'', ''Berlin'')]) =
       buildWhereClause [(''city'', ''Berlin'')]
   \<and> buildWhereClause (AList.delete ''sort'' [(''city'', ''Berlin'')]) =
       buildWhereClause [(''city'', ''Berlin'')]
   \<and> extractFilters (AList.update ''sort'' ''id; DROP TABLE places'' [(''city'', ''Berlin'')]) =
       extractFilters [(''city'', ''Berlin'')]"
proof -
  have a: "''sort'' \<notin> set builderKeys"
    by (simp add: builderKeys_def equalityFields_def)
  have b: "''sort'' \<notin> set filterKeys"
    by (simp add: filterKeys_def)
  from a b unlisted_key_contributes_nothing
    [of "''sort''" "''id; DROP TABLE places''" "[(''city'', ''Berlin'')]" "[(''city'', ''Berlin'')]"]
  show ?thesis by blast
qed


section \<open>The country filters\<close>

lemmas extractFilters_eval = extractFilters_def filterKeys_def extractStep_def

text \<open>
  Claim C3 at the request \<^verbatim>\<open>?country_code=DE\<close> (and \<^verbatim>\<open>?country=Germany\<close>): the route
  copies the key into the filter object, and the builder, whose equality fields are
  \<^verbatim>\<open>county_code\<close> and \<^verbatim>\<open>county\<close>, makes no predicate and binds no value for it.
\<close>

theorem country_filter_is_dropped:
  "extractFilters [(''country_code'', ''DE'')] = [(''country_code'', ''DE'')]
   \<and> buildWhereClause (extractFilters [(''country_code'', ''DE'')]) =
       \<lparr>whereClause = [], params = []\<rparr>
   \<and> extractFilters [(''country'', ''Germany'')] = [(''country'', ''Germany'')]
   \<and> buildWhereClause (extractFilters [(''country'', ''Germany'')]) =
       \<lparr>whereClause = [], params = []\<rparr>"
proof -
  have a: "extractFilters [(''country_code'', ''DE'')] = [(''country_code'', ''DE'')]"
    by (simp add: extractFilters_eval)
  have b: "extractFilters [(''country'', ''Germany'')] = [(''country'', ''Germany'')]"
    by (simp add: extractFilters_eval)
  have c: "buildWhereClause [(''country_code'', ''DE'')] = \<lparr>whereClause = [], params = []\<rparr>"
    by (simp add: buildWhereClause_def buildConditions_listing listing_def predicates_def
        filterRules_def)
  have d: "buildWhereClause [(''country'', ''Germany'')] = \<lparr>whereClause = [], params = []\<rparr>"
    by (simp add: buildWhereClause_def buildConditions_listing listing_def predicates_def
        filterRules_def)
  from a b c d show ?thesis by (simp only: simp_thms)
qed

section \<open>Numeric filters that do not parse\<close>

lemma map_of_extractStep:
  "map_of (extractStep q acc k) key =
     (case map_of q k of
        None \<Rightarrow> map_of acc key
      | Some v \<Rightarrow> if key = k then Some v else map_of acc key)"
  by (simp add: extractStep_def update_conv' split: option.split)

lemma map_of_foldl_extractStep:
  "map_of (foldl (extractStep q) acc keys) key =
     (if key \<in> set keys
      then (case map_of q key of None \<Rightarrow> map_of acc key | Some v \<Rightarrow> Some v)
      else map_of acc key)"
proof (induction keys arbitrary: acc)
  case Nil
  show ?case by simp
next
  case (Cons k keys)
  have "map_of (foldl (extractStep q) acc (k # keys)) key =
        map_of (foldl (extractStep q) (extractStep q acc k) keys) key"
    by simp
  also have "\<dots> =
     (if key \<in> set keys
      then (case map_of q key of
              None \<Rightarrow> map_of (extractStep q acc k) key
            | Some v \<Rightarrow> Some v)
      else map_of (extractStep q acc k) key)"
    by (rule Cons.IH)
  also have "\<dots> =
     (if key \<in> set (k # keys)
      then (case map_of q key of None \<Rightarrow> map_of acc key | Some v \<Rightarrow> Some v)
      else map_of acc key)"
    by (auto simp add: map_of_extractStep split: option.split)
  finally show ?case .
qed

lemma map_of_extractFilters:
  "map_of (extractFilters q) key = (if key \<in> set filterKeys then map_of q key else None)"
  by (cases "map_of q key") (simp_all add: extractFilters_def map_of_foldl_extractStep)

lemma predicate_in_predicates:
  assumes "(key, col, opr, rd) \<in> set filterRules" and "map_of f key = Some v"
    and "included rd (Some v)"
  shows "(col, opr, boundValue rd v) \<in> set (predicates f)"
proof -
  from assms(2,3) have "(col, opr, boundValue rd v) \<in> set (predicateOf f (key, col, opr, rd))"
    by simp
  with assms(1) show ?thesis
    unfolding predicates_def set_concat by (metis UN_I list.set_map rev_image_eqI)
qed

lemma bound_in_params:
  assumes "(key, col, opr, rd) \<in> set filterRules" and "map_of f key = Some v"
    and "included rd (Some v)"
  shows "boundValue rd v \<in> set (params (buildWhereClause f))"
proof -
  from predicate_in_predicates [OF assms]
  have "boundParam (col, opr, boundValue rd v) \<in> boundParam ` set (predicates f)"
    by (rule imageI)
  then show ?thesis by (simp add: params_predicates)
qed

lemma integer_filter_bound:
  assumes "key \<in> set [''reviews'', ''reviews_min'', ''reviews_max'']"
    and "map_of q key = Some v"
  shows "PNum (parseInt v) \<in> set (params (buildWhereClause (extractFilters q)))"
proof -
  from assms(1) have k: "key \<in> set filterKeys" by (auto simp add: filterKeys_def)
  from assms(1) obtain opr where r: "(key, ''reviews'', opr, AsInteger) \<in> set filterRules"
    by (auto simp add: filterRules_def)
  from k assms(2) have "map_of (extractFilters q) key = Some v"
    by (simp add: map_of_extractFilters)
  from bound_in_params [OF r this] show ?thesis by simp
qed

lemma decimal_filter_bound:
  assumes "key \<in> set [''rating'', ''rating_min'', ''rating_max'']"
    and "map_of q key = Some v"
  shows "PNum (parseFloat v) \<in> set (params (buildWhereClause (extractFilters q)))"
proof -
  from assms(1) have k: "key \<in> set filterKeys" by (auto simp add: filterKeys_def)
  from assms(1) obtain opr where r: "(key, ''rating'', opr, AsDecimal) \<in> set filterRules"
    by (auto simp add: filterRules_def)
  from k assms(2) have "map_of (extractFilters q) key = Some v"
    by (simp add: map_of_extractFilters)
  from bound_in_params [OF r this] show ?thesis by simp
qed

lemma listPlaces_status:
  "status (listPlaces execute q) = 200 \<or> status (listPlaces execute q) = 500"
  by (simp add: listPlaces_def Let_def split: sum.split)

text \<open>
  Claim C6, as the code has it. A numeric filter value that is present is bound as what
  \<^verbatim>\<open>parseInt\<close> (reviews, reviews_min, reviews_max) or \<^verbatim>\<open>parseFloat\<close> (rating,
  rating_min, rating_max) makes of it, which is \<^verbatim>\<open>NaN\<close> when it does not parse; the
  builder raises nothing, and the list handler answers with status 200, or with 500 when
  the store raises: there is no validation and no status of the 4xx class.
\<close>

theorem unparsed_numeric_filter_is_bound:
  "(status (listPlaces execute q) = 200 \<or> status (listPlaces execute q) = 500)
   \<and> (ikey \<in> set [''reviews'', ''reviews_min'', ''reviews_max''] \<and> map_of q ikey = Some iv
        \<longrightarrow> PNum (parseInt iv) \<in> set (params (buildWhereClause (extractFilters q))))
   \<and> (dkey \<in> set [''rating'', ''rating_min'', ''rating_max''] \<and> map_of q dkey = Some dv
        \<longrightarrow> PNum (parseFloat dv) \<in> set (params (buildWhereClause (extractFilters q))))"
  using listPlaces_status [of execute q] integer_filter_bound [of ikey q iv]
    decimal_filter_bound [of dkey q dv]
  by blast

theorem unparsed_numeric_filter_is_bound_witness:
  "parseInt ''abc'' = NaN \<and> parseFloat ''high'' = NaN
   \<and> PNum (parseInt ''abc'') \<in>
        set (params (buildWhereClause (extractFilters [(''reviews_min'', ''abc''), (''rating'', ''high'')])))
   \<and> PNum (parseFloat ''high'') \<in>
        set (params (buildWhereClause (extractFilters [(''reviews_min'', ''abc''), (''rating'', ''high'')])))
   \<and> (status (listPlaces acceptingStore [(''reviews_min'', ''abc''), (''rating'', ''high'')]) = 200
        \<or> status (listPlaces acceptingStore [(''reviews_min'', ''abc''), (''rating'', ''high'')]) = 500)"
proof -
  let ?q = "[(''reviews_min'', ''abc''), (''rating'', ''high'')]"
  have a: "''reviews_min'' \<in> set [''reviews'', ''reviews_min'', ''reviews_max'']"
    by simp
  have b: "map_of ?q ''reviews_min'' = Some ''abc''"
    by simp
  have c: "''rating'' \<in> set [''rating'', ''rating_min'', ''rating_max'']"
    by simp
  have d: "map_of ?q ''rating'' = Some ''high''"
    by simp
  have e: "parseInt ''abc'' = NaN"
    by (simp add: parseInt_eval)
  have f: "parseFloat ''high'' = NaN"
    by (simp add: parseFloat_def isWhiteSpace_def isDecimalDigit_def)
  from a b c d unparsed_numeric_filter_is_bound
    [of acceptingStore ?q "''reviews_min''" "''abc''" "''rating''" "''high''"]
  have "PNum (parseInt ''abc'') \<in> set (params (buildWhereClause (extractFilters ?q)))
     \<and> PNum (parseFloat ''high'') \<in> set (params (buildWhereClause (extractFilters ?q)))
     \<and> (status (listPlaces acceptingStore ?q) = 200
        \<or> status (listPlaces acceptingStore ?q) = 500)"
    by blast
  with e f show ?thesis by blast
qed

text \<open>
  The request \<^verbatim>\<open>?reviews=abc\<close>: the value is coerced to \<^verbatim>\<open>NaN\<close> and bound, and with a
  store that accepts the statement the answer is a 200.
\<close>

theorem unparsed_reviews_counterexample:
  "parseInt ''abc'' = NaN
   \<and> buildWhereClause (extractFilters [(''reviews'', ''abc'')]) =
       \<lparr>whereClause = ''WHERE reviews = ?'', params = [PNum NaN]\<rparr>
   \<and> status (listPlaces acceptingStore [(''reviews'', ''abc'')]) = 200"
proof -
  have a: "parseInt ''abc'' = NaN"
    by (simp add: parseInt_eval)
  have b: "extractFilters [(''reviews'', ''abc'')] = [(''reviews'', ''abc'')]"
    by (simp add: extractFilters_eval)
  have c: "buildWhereClause [(''reviews'', ''abc'')] =
       \<lparr>whereClause = ''WHERE reviews = ?'', params = [PNum NaN]\<rparr>"
    by (simp add: buildWhereClause_def buildConditions_listing listing_def predicates_def
        filterRules_def a)
  have d: "status (listPlaces acceptingStore [(''reviews'', ''abc'')]) = 200"
    by (simp add: listPlaces_def getPlaces_def countPlaces_def query_def acceptingStore_def)
  from a b c d show ?thesis by (simp only: simp_thms)
qed

section \<open>The statistics\<close>

text \<open>
  Claim C7 on a table with two cities: the store answers the city aggregation with two
  rows, and \<^verbatim>\<open>getStats\<close> returns the first row alone as \<^verbatim>\<open>top_cities\<close>, an object and
  not a list; the row of Munich is gone.
\<close>

theorem getStats_keeps_first_row_only:
  "query threePlaces (topSql ''city'') [] =
     Inr [[(''city'', CStr ''Berlin''), (''count'', CNum (Num 2))],
          [(''city'', CStr ''Munich''), (''count'', CNum (Num 1))]]
   \<and> getStats threePlaces =
     Inr \<lparr>total_places = Some (CNum (Num 3)),
          top_cities = Some [(''city'', CStr ''Berlin''), (''count'', CNum (Num 2))],
          top_types = None, top_county_codes = None\<rparr>"
  by (simp add: getStats_def query_def threePlaces_def totalSql_def topSql_def)

section \<open>Properties of the streaming export\<close>

subsection \<open>The printed counter\<close>

lemma digit_char:
  assumes "d < 10"
  shows "isDecimalDigit (char_of (48 + d)) \<and> digitVal (char_of (48 + d)) = d"
proof -
  have all: "list_all (\<lambda>d. isDecimalDigit (char_of (48 + d)) \<and> digitVal (char_of (48 + d)) = d)
               [0, 1, 2, 3, 4, 5, 6, 7, 8, 9 :: nat]"
    by code_simp
  from assms have "d \<in> set [0, 1, 2, 3, 4, 5, 6, 7, 8, 9 :: nat]"
    by (simp) arith
  with all show ?thesis
    unfolding list_all_iff by blast
qed

lemma digitsValue_snoc: "digitsValue R (Z @ [c]) = digitsValue R Z * R + digitVal c"
  by (simp add: digitsValue_def)

lemma decimal_unfold:
  "decimal n =
     (if n < 10 then [char_of (48 + n)] else decimal (n div 10) @ [char_of (48 + n mod 10)])"
  by (rule decimal.simps)

lemma decimal_value: "digitsValue 10 (decimal n) = n"
proof (induction n rule: decimal.induct)
  case (1 n)
  show ?case
  proof (cases "n < 10")
    case True
    then have "decimal n = [char_of (48 + n)]"
      by (subst decimal_unfold) simp
    with True digit_char [of n] show ?thesis
      by (simp add: digitsValue_def del: decimal.simps)
  next
    case False
    then have d: "decimal n = decimal (n div 10) @ [char_of (48 + n mod 10)]"
      by (subst decimal_unfold) simp
    have "n mod 10 < 10" by simp
    with digit_char [of "n mod 10"] have "digitVal (char_of (48 + n mod 10)) = n mod 10"
      by blast
    with False "1.IH" d show ?thesis
      by (simp add: digitsValue_snoc del: decimal.simps)
  qed
qed

lemma decimal_digits: "list_all isDecimalDigit (decimal n)"
proof (induction n rule: decimal.induct)
  case (1 n)
  show ?case
  proof (cases "n < 10")
    case True
    then have "decimal n = [char_of (48 + n)]"
      by (subst decimal_unfold) simp
    with True digit_char [of n] show ?thesis
      by (simp del: decimal.simps)
  next
    case False
    then have d: "decimal n = decimal (n div 10) @ [char_of (48 + n mod 10)]"
      by (subst decimal_unfold) simp
    have "n mod 10 < 10" by simp
    with digit_char [of "n mod 10"] have "isDecimalDigit (char_of (48 + n mod 10))"
      by blast
    with False "1.IH" d show ?thesis
      by (simp del: decimal.simps)
  qed
qed

lemma decimal_not_Nil: "decimal n \<noteq> []"
  by (subst decimal_unfold) simp

lemma digitVal_zero: "digitVal (CHR ''0'') = 0"
  by code_simp

lemma char_of_48: "char_of (48 :: nat) = CHR ''0''"
  by code_simp

lemma decimal_leading_zero: "(hd (decimal n) = CHR ''0'') = (n = 0)"
proof (induction n rule: decimal.induct)
  case (1 n)
  show ?case
  proof (cases "n < 10")
    case True
    then have d: "decimal n = [char_of (48 + n)]"
      by (subst decimal_unfold) simp
    show ?thesis
    proof
      assume "hd (decimal n) = CHR ''0''"
      with d have "char_of (48 + n) = CHR ''0''" by simp
      with True digit_char [of n] digitVal_zero show "n = 0" by simp
    next
      assume "n = 0"
      with d char_of_48 show "hd (decimal n) = CHR ''0''" by simp
    qed
  next
    case False
    then have d: "decimal n = decimal (n div 10) @ [char_of (48 + n mod 10)]"
      by (subst decimal_unfold) simp
    from False have "n div 10 \<noteq> 0" by simp
    with False "1.IH" have "hd (decimal (n div 10)) \<noteq> CHR ''0''" by simp
    with d decimal_not_Nil [of "n div 10"] False show ?thesis
      by (simp del: decimal.simps)
  qed
qed


subsection \<open>The listeners over a list of events\<close>

lemma emit_Data:
  "\<not> ended s \<Longrightarrow>
   emit ser s (Data r) = s\<lparr>counter := counter s + 1, written := written s @ [ser r @ ''\<newline>'']\<rparr>"
  by (simp add: onData_def res_write_def)

lemma emit_rows:
  "\<not> ended s \<Longrightarrow>
   foldl (emit ser) s (map Data rows) =
     s\<lparr>counter := counter s + length rows,
       written := written s @ map (\<lambda>r. ser r @ ''\<newline>'') rows\<rparr>"
proof (induction rows arbitrary: s)
  case Nil
  show ?case by simp
next
  case (Cons r rows)
  let ?s = "s\<lparr>counter := counter s + 1, written := written s @ [ser r @ ''\<newline>'']\<rparr>"
  from Cons.prems have "foldl (emit ser) s (map Data (r # rows)) = foldl (emit ser) ?s (map Data rows)"
    by (simp add: emit_Data del: emit.simps)
  also from Cons.prems have "\<dots> =
     ?s\<lparr>counter := counter ?s + length rows,
       written := written ?s @ map (\<lambda>r. ser r @ ''\<newline>'') rows\<rparr>"
    by (intro Cons.IH) simp_all
  also have "\<dots> = s\<lparr>counter := counter s + length (r # rows),
       written := written s @ map (\<lambda>r. ser r @ ''\<newline>'') (r # rows)\<rparr>"
    by simp
  finally show ?case .
qed

lemma run_rows:
  "run ser (map Data rows @ evs) =
   foldl (emit ser)
     (started\<lparr>counter := length rows, written := map (\<lambda>r. ser r @ ''\<newline>'') rows\<rparr>) evs"
proof -
  have "foldl (emit ser) started (map Data rows) =
        started\<lparr>counter := counter started + length rows,
          written := written started @ map (\<lambda>r. ser r @ ''\<newline>'') rows\<rparr>"
    by (rule emit_rows) (simp add: started_def)
  then show ?thesis by (simp add: run_def started_def)
qed

lemma emit_closes:
  "foldl (emit ser) s (replicate k Close) = s\<lparr>destroyed := destroyed s \<or> 0 < k\<rparr>"
proof (induction k arbitrary: s)
  case 0
  show ?case by simp
next
  case (Suc k)
  show ?case by (simp add: Suc.IH onClose_def stream_destroy_def)
qed

lemmas listeners =
  onData_def onEnd_def onError_def onClose_def connection_release_def res_write_def
  res_end_def stream_destroy_def

lemma emit_ended:
  "ended s \<Longrightarrow> ended (emit ser s ev) \<and> written (emit ser s ev) = written s"
  by (cases ev) (simp_all add: listeners)

lemma written_after_end:
  "ended s \<Longrightarrow>
   ended (foldl (emit ser) s evs) \<and> written (foldl (emit ser) s evs) = written s"
proof (induction evs arbitrary: s)
  case Nil
  then show ?case by simp
next
  case (Cons ev evs)
  from Cons.prems emit_ended [of s ser ev]
  have e: "ended (emit ser s ev)" and w: "written (emit ser s ev) = written s"
    by simp_all
  from Cons.IH [OF e] w show ?case by simp
qed

lemma released_emit:
  "released (emit ser s ev) = released s + (if releases ev then 1 else 0)"
  by (cases ev) (simp_all add: listeners Let_def)

lemma released_foldl:
  "released (foldl (emit ser) s evs) = released s + length (filter releases evs)"
proof (induction evs arbitrary: s)
  case Nil
  show ?case by simp
next
  case (Cons ev evs)
  show ?case by (simp add: Cons.IH released_emit del: emit.simps)
qed

lemma meta_text:
  \<open>JSON_stringify (metaRecord n) = ''{"_meta":{"total_streamed":'' @ decimal n @ '',"complete":true}}''\<close>
  by (simp add: metaRecord_def quoteJSON_def escapeChar_def del: decimal.simps)

lemma error_text:
  \<open>JSON_stringify (errorRecord message) = ''{"_error":'' @ quoteJSON message @ ''}''\<close>
  by (simp add: errorRecord_def quoteJSON_def escapeChar_def)

lemma decimal_0: "decimal 0 = ''0''"
  by code_simp

lemma decimal_12: "decimal 12 = ''12''"
  by code_simp

lemma after_End:
  \<open>ended (run ser (map Data rows @ End # evs))
   \<and> written (run ser (map Data rows @ End # evs)) =
       map (\<lambda>r. ser r @ ''\<newline>'') rows @
       [''{"_meta":{"total_streamed":'' @ decimal (length rows) @ '',"complete":true}}\<newline>'']\<close>
proof -
  let ?s = "emit ser (started\<lparr>counter := length rows,
                       written := map (\<lambda>r. ser r @ ''\<newline>'') rows\<rparr>) End"
  have e: "ended ?s"
    by (simp add: listeners started_def)
  have w: \<open>written ?s = map (\<lambda>r. ser r @ ''\<newline>'') rows @
       [''{"_meta":{"total_streamed":'' @ decimal (length rows) @ '',"complete":true}}\<newline>'']\<close>
    by (simp add: listeners started_def meta_text del: decimal.simps)
  have "run ser (map Data rows @ End # evs) = foldl (emit ser) ?s evs"
    by (simp add: run_rows del: emit.simps)
  with written_after_end [OF e, of ser evs] w show ?thesis
    by (simp del: emit.simps decimal.simps)
qed

lemma after_Error:
  \<open>ended (run ser (map Data rows @ Error message # evs))
   \<and> written (run ser (map Data rows @ Error message # evs)) =
       map (\<lambda>r. ser r @ ''\<newline>'') rows @ [''{"_error":'' @ quoteJSON message @ ''}\<newline>'']\<close>
proof -
  let ?s = "emit ser (started\<lparr>counter := length rows,
                       written := map (\<lambda>r. ser r @ ''\<newline>'') rows\<rparr>) (Error message)"
  have e: "ended ?s"
    by (simp add: listeners started_def)
  have w: \<open>written ?s =
       map (\<lambda>r. ser r @ ''\<newline>'') rows @ [''{"_error":'' @ quoteJSON message @ ''}\<newline>'']\<close>
    by (simp add: listeners started_def error_text)
  have "run ser (map Data rows @ Error message # evs) = foldl (emit ser) ?s evs"
    by (simp add: run_rows del: emit.simps)
  with written_after_end [OF e, of ser evs] w show ?thesis
    by (simp del: emit.simps)
qed

lemma released_run: "released (run ser evs) = length (filter releases evs)"
  by (simp add: run_def released_foldl started_def)

text \<open>
  Claim C8. When the row source delivers N rows and then signals exhaustion, the response
  is the N data lines in order followed by the one trailer line, and the response is
  ended; no later event adds a line. The number in the trailer is N written in decimal
  digits without a leading zero: read back as a number it is N. With no row the trailer
  counts 0 and is the only line; with twelve rows it counts 12.
\<close>

theorem complete_export_output:
  \<open>written (run ser (map Data rows @ End # evs)) =
     map (\<lambda>r. ser r @ ''\<newline>'') rows @
     [''{"_meta":{"total_streamed":'' @ decimal (length rows) @ '',"complete":true}}\<newline>'']
   \<and> ended (run ser (map Data rows @ End # evs))
   \<and> counter (run ser (map Data rows @ End # replicate k Close)) = length rows
   \<and> digitsValue 10 (decimal (length rows)) = length rows
   \<and> list_all isDecimalDigit (decimal (length rows))
   \<and> (hd (decimal (length rows)) = CHR ''0'') = (length rows = 0)
   \<and> written (run ser [End]) = [''{"_meta":{"total_streamed":0,"complete":true}}\<newline>'']
   \<and> written (run ser (map Data (replicate 12 r) @ [End])) =
       replicate 12 (ser r @ ''\<newline>'') @
       [''{"_meta":{"total_streamed":12,"complete":true}}\<newline>'']\<close>
proof -
  have c: "counter (run ser (map Data rows @ End # replicate k Close)) = length rows"
    by (simp add: run_rows emit_closes listeners started_def)
  from after_End [of ser "[]" "[]"]
  have z: \<open>written (run ser [End]) = [''{"_meta":{"total_streamed":0,"complete":true}}\<newline>'']\<close>
    by (simp add: decimal_0 del: decimal.simps emit.simps)
  from after_End [of ser "replicate 12 r" "[]"]
  have t: \<open>written (run ser (map Data (replicate 12 r) @ [End])) =
       replicate 12 (ser r @ ''\<newline>'') @
       [''{"_meta":{"total_streamed":12,"complete":true}}\<newline>'']\<close>
    by (simp add: decimal_12 del: decimal.simps emit.simps)
  from after_End [of ser rows evs] c decimal_value [of "length rows"]
    decimal_digits [of "length rows"] decimal_leading_zero [of "length rows"] z t
  show ?thesis by (intro conjI) (simp_all only: simp_thms)
qed

text \<open>
  Claim C9 where the row source reports its failure, after N rows, by the event
  \<^verbatim>\<open>error\<close> followed by the event \<^verbatim>\<open>end\<close>. The response is the N data lines and the one
  error line, whose message is quoted with the quote, the backslash and the control
  characters escaped, and it is ended; no later event adds a line. The connection is
  released by the listener of \<^verbatim>\<open>error\<close> and again by the listener of \<^verbatim>\<open>end\<close>: twice.
\<close>

theorem failed_export_releases_twice:
  \<open>released (run ser (map Data rows @ [Error message, End])) = 2
   \<and> written (run ser (map Data rows @ Error message # evs)) =
       map (\<lambda>r. ser r @ ''\<newline>'') rows @ [''{"_error":'' @ quoteJSON message @ ''}\<newline>'']
   \<and> ended (run ser (map Data rows @ Error message # evs))
   \<and> quoteJSON [CHR 0x22, CHR 0x5C, CHR 0x08, CHR 0x0C, CHR 0x0A, CHR 0x0D, CHR 0x09,
                 CHR 0x00, CHR 0x0B, CHR 0x1A, CHR 0x1F, CHR ''a'', CHR 0x7F, CHR 0xE9] =
       ''"'' @ [CHR 0x5C] @ ''"'' @ [CHR 0x5C, CHR 0x5C] @ [CHR 0x5C] @ ''b'' @
       [CHR 0x5C] @ ''f'' @ [CHR 0x5C] @ ''n'' @ [CHR 0x5C] @ ''r'' @ [CHR 0x5C] @ ''t'' @
       [CHR 0x5C] @ ''u0000'' @ [CHR 0x5C] @ ''u000b'' @ [CHR 0x5C] @ ''u001a'' @
       [CHR 0x5C] @ ''u001f'' @ ''a'' @ [CHR 0x7F, CHR 0xE9] @ ''"''
   \<and> written (run ser [Error ''Unknown column "x"'', End]) =
       [''{"_error":"Unknown column '' @ [CHR 0x5C] @ ''"x'' @ [CHR 0x5C] @ ''""}\<newline>'']\<close>
proof -
  have r: "released (run ser (map Data rows @ [Error message, End])) = 2"
    by (simp add: released_run)
  have q: \<open>quoteJSON [CHR 0x22, CHR 0x5C, CHR 0x08, CHR 0x0C, CHR 0x0A, CHR 0x0D, CHR 0x09,
                 CHR 0x00, CHR 0x0B, CHR 0x1A, CHR 0x1F, CHR ''a'', CHR 0x7F, CHR 0xE9] =
       ''"'' @ [CHR 0x5C] @ ''"'' @ [CHR 0x5C, CHR 0x5C] @ [CHR 0x5C] @ ''b'' @
       [CHR 0x5C] @ ''f'' @ [CHR 0x5C] @ ''n'' @ [CHR 0x5C] @ ''r'' @ [CHR 0x5C] @ ''t'' @
       [CHR 0x5C] @ ''u0000'' @ [CHR 0x5C] @ ''u000b'' @ [CHR 0x5C] @ ''u001a'' @
       [CHR 0x5C] @ ''u001f'' @ ''a'' @ [CHR 0x7F, CHR 0xE9] @ ''"''\<close>
    by code_simp
  have m: \<open>quoteJSON ''Unknown column "x"'' =
       ''"Unknown column '' @ [CHR 0x5C] @ ''"x'' @ [CHR 0x5C] @ ''""''\<close>
    by code_simp
  from after_Error [of ser "[]" \<open>''Unknown column "x"''\<close> "[End]"]
  have i: \<open>written (run ser [Error ''Unknown column "x"'', End]) =
       [''{"_error":"Unknown column '' @ [CHR 0x5C] @ ''"x'' @ [CHR 0x5C] @ ''""}\<newline>'']\<close>
    by (simp add: m del: emit.simps)
  from r after_Error [of ser rows message evs] q i
  show ?thesis by (intro conjI) (simp_all only: simp_thms)
qed

text \<open>
  Claim C1. The connection is released once for each \<^verbatim>\<open>end\<close> and each \<^verbatim>\<open>error\<close> event
  of the row source, and by nothing else: the two listeners are independent, and neither
  looks whether the other has run. A row source that reports a failure by \<^verbatim>\<open>error\<close>
  followed by \<^verbatim>\<open>end\<close> therefore has its connection released twice.
\<close>

theorem release_per_terminal_event:
  "released (run ser evs) = length (filter releases evs)
   \<and> released (run ser (map Data rows @ [Error message, End])) = 2
   \<and> released (run ser [Data r, Error message, End]) = 2"
  by (simp add: released_run)

end
